theory Spec2Isabelle
  imports Main "HOL-Library.Word"
begin

unbundle bit_operations_syntax

section \<open>The UHID example: a three-button mouse over /dev/uhid\<close>

text \<open>
  A shallow embedding of \<^verbatim>\<open>samples/uhid/uhid-example.c\<close>. Every C function of the file
  is a HOL function of the same name. System calls are answered by the environment: the
  result of each \<^verbatim>\<open>read\<close>, \<^verbatim>\<open>write\<close> and \<^verbatim>\<open>poll\<close> is an input of the model, and
  everything the program hands to \<^verbatim>\<open>write\<close> or prints on stderr is recorded in the
  \<open>world\<close>.
\<close>

type_synonym byte = "8 word"

subsection \<open>What the system headers provide\<close>

text \<open>
  The program includes \<^verbatim>\<open><linux/uhid.h>\<close> and the C library headers, none of which
  is part of the sources. Whatever the program takes from them is a field of the record
  \<open>hdr\<close>, a parameter of every function below: the \<^verbatim>\<open>errno\<close> codes, the exit codes,
  the \<^verbatim>\<open>poll\<close> flags, the numbering of \<^verbatim>\<open>enum uhid_event_type\<close>, the byte order, and
  the layout of \<^verbatim>\<open>struct uhid_event\<close> (size of the struct, offset of each member the
  program assigns; \<^verbatim>\<open>type\<close> is the first member and so at offset 0).
\<close>

datatype uhid_event_type =
    UHID_CREATE | UHID_DESTROY | UHID_START | UHID_STOP | UHID_OPEN | UHID_CLOSE
  | UHID_OUTPUT | UHID_OUTPUT_EV | UHID_INPUT

record hdr =
  EFAULT :: int
  ECANCELED :: int
  EXIT_SUCCESS :: int
  EXIT_FAILURE :: int
  POLLIN :: "16 word"
  POLLHUP :: "16 word"
  BUS_USB :: nat
  tag :: "uhid_event_type \<Rightarrow> 32 word"
  big_endian :: bool
  sizeof_event :: nat
  sizeof_ptr :: nat
  off_name :: nat
  sizeof_name :: nat
  off_rd_data :: nat
  off_rd_size :: nat
  off_bus :: nat
  off_vendor :: nat
  off_product :: nat
  off_version :: nat
  off_country :: nat
  off_data :: nat
  sizeof_data :: nat
  off_size :: nat

text \<open>
  The members of a struct lie in declaration order inside it, the error codes are
  positive, and success is exit status 0. \<open>wf_hdr\<close> says no more than that; the widths are those of the member types
  (\<^verbatim>\<open>__u32 type\<close>, \<^verbatim>\<open>__u16 rd_size, bus, size\<close>, \<^verbatim>\<open>__u32 vendor, product, version,
  country\<close>).
\<close>

definition wf_hdr :: "hdr \<Rightarrow> bool" where
  "wf_hdr K \<longleftrightarrow>
     0 < EFAULT K \<and> 0 < ECANCELED K \<and> EXIT_SUCCESS K = 0 \<and> EXIT_FAILURE K \<noteq> 0 \<and>
     4 \<le> off_name K \<and> 17 \<le> sizeof_name K \<and>
     off_name K + sizeof_name K \<le> off_rd_data K \<and>
     off_rd_data K + sizeof_ptr K \<le> off_rd_size K \<and>
     off_rd_size K + 2 \<le> off_bus K \<and>
     off_bus K + 2 \<le> off_vendor K \<and>
     off_vendor K + 4 \<le> off_product K \<and>
     off_product K + 4 \<le> off_version K \<and>
     off_version K + 4 \<le> off_country K \<and>
     off_country K + 4 \<le> sizeof_event K \<and>
     4 \<le> off_data K \<and> 4 \<le> sizeof_data K \<and>
     off_data K + sizeof_data K \<le> off_size K \<and>
     off_size K + 2 \<le> sizeof_event K"

text \<open>
  One instance, on which the statements below are tried: the headers of the kernel this
  sample ships with, on a 64-bit little-endian target. \<^verbatim>\<open>struct uhid_event\<close> is packed,
  4 bytes of type tag and a union whose largest member is 4104 bytes. No general
  statement depends on these numbers.
\<close>

fun linux_tag :: "uhid_event_type \<Rightarrow> 32 word" where
  "linux_tag UHID_CREATE = 0"
| "linux_tag UHID_DESTROY = 1"
| "linux_tag UHID_START = 2"
| "linux_tag UHID_STOP = 3"
| "linux_tag UHID_OPEN = 4"
| "linux_tag UHID_CLOSE = 5"
| "linux_tag UHID_OUTPUT = 6"
| "linux_tag UHID_OUTPUT_EV = 7"
| "linux_tag UHID_INPUT = 8"

definition linux_hdr :: hdr where
  "linux_hdr = \<lparr> EFAULT = 14, ECANCELED = 125, EXIT_SUCCESS = 0, EXIT_FAILURE = 1,
     POLLIN = 1, POLLHUP = 16, BUS_USB = 3, tag = linux_tag, big_endian = False,
     sizeof_event = 4108, sizeof_ptr = 8,
     off_name = 4, sizeof_name = 128, off_rd_data = 260, off_rd_size = 268,
     off_bus = 270, off_vendor = 272, off_product = 276, off_version = 280,
     off_country = 284, off_data = 4, sizeof_data = 4096, off_size = 4100 \<rparr>"

subsection \<open>Bytes in memory\<close>

text \<open>\<open>store off bs buf\<close>: the buffer with the bytes \<open>bs\<close> written from offset \<open>off\<close>.\<close>

definition store :: "nat \<Rightarrow> 'a list \<Rightarrow> 'a list \<Rightarrow> 'a list" where
  "store off bs buf = take off buf @ bs @ drop (off + length bs) buf"

text \<open>An unsigned integer of \<open>n\<close> bytes in the byte order of the target.\<close>

definition le_bytes :: "nat \<Rightarrow> nat \<Rightarrow> byte list" where
  "le_bytes n v = map (\<lambda>i. of_nat (v div 256 ^ i)) [0..<n]"

definition enc :: "hdr \<Rightarrow> nat \<Rightarrow> nat \<Rightarrow> byte list" where
  "enc K n v = (if big_endian K then rev (le_bytes n v) else le_bytes n v)"

definition le_val :: "byte list \<Rightarrow> nat" where
  "le_val bs = foldr (\<lambda>b acc. unat b + 256 * acc) bs 0"

definition dec :: "hdr \<Rightarrow> byte list \<Rightarrow> nat" where
  "dec K bs = (if big_endian K then le_val (rev bs) else le_val bs)"

text \<open>\<^verbatim>\<open>memset(&ev, 0, n)\<close> and \<^verbatim>\<open>strcpy(dst, src)\<close>, which copies up to and including the
  terminating NUL and knows nothing of the size of the destination.\<close>

definition memset0 :: "nat \<Rightarrow> byte list \<Rightarrow> byte list" where
  "memset0 n buf = replicate n 0 @ drop n buf"

definition c_string :: "string \<Rightarrow> byte list" where
  "c_string s = takeWhile (\<lambda>b. b \<noteq> 0) (map of_char s) @ [0]"

definition strcpy :: "nat \<Rightarrow> string \<Rightarrow> byte list \<Rightarrow> byte list" where
  "strcpy dst src buf = store dst (c_string src) buf"

subsection \<open>The environment\<close>

text \<open>
  A system call returns a value and, when that is negative, leaves a code in \<^verbatim>\<open>errno\<close>.
  \<^verbatim>\<open>read\<close> returns the bytes it delivers (at most as many as asked for), or fails.
\<close>

record sysret =
  ret :: int
  errno :: int

datatype 'a rdres = RdErr int | RdData "'a list"

definition read_ret :: "nat \<Rightarrow> 'a rdres \<Rightarrow> int" where
  "read_ret count r = (case r of RdErr e \<Rightarrow> - 1 | RdData bs \<Rightarrow> int (length (take count bs)))"

definition read_errno :: "'a rdres \<Rightarrow> int" where
  "read_errno r = (case r of RdErr e \<Rightarrow> e | RdData bs \<Rightarrow> 0)"

definition read_data :: "nat \<Rightarrow> 'a rdres \<Rightarrow> 'a list" where
  "read_data count r = (case r of RdErr e \<Rightarrow> [] | RdData bs \<Rightarrow> take count bs)"

text \<open>The lines the program prints on stderr.\<close>

datatype msg =
    Cannot_write_to_uhid int
  | Wrong_size_written int nat
  | Read_HUP_on_uhid_cdev
  | Cannot_read_uhid_cdev int
  | Invalid_size_read int nat
  | From_uhid_dev uhid_event_type
  | Invalid_event nat
  | Read_HUP_on_stdin
  | Cannot_read_stdin int
  | Invalid_input char
  | Cannot_get_tty_state
  | Cannot_set_tty_state
  | Usage string string
  | Open_uhid_cdev string
  | Cannot_open_uhid_cdev string int
  | Create_uhid_device
  | Press_q_to_quit
  | Cannot_poll_for_fds int
  | Received_HUP_on_stdin
  | Received_HUP_on_uhid_cdev
  | Destroy_uhid_device

text \<open>
  \<open>wlog\<close>: every call of \<^verbatim>\<open>write\<close> so far, with the descriptor and the bytes handed over;
  \<open>wres\<close>: what the \<open>n\<close>-th call of \<^verbatim>\<open>write\<close> returns; \<open>stderr\<close>: the lines printed;
  \<open>stack\<close>: the bytes lying in the stack slot that the next \<^verbatim>\<open>struct uhid_event ev\<close>
  is given, uninitialised, so whatever the previous call left there.
\<close>

record world =
  wlog :: "(int \<times> byte list) list"
  wres :: "nat \<Rightarrow> sysret"
  stderr :: "msg list"
  stack :: "byte list"

definition fprintf :: "msg \<Rightarrow> world \<Rightarrow> world" where
  "fprintf m w = w\<lparr> stderr := stderr w @ [m] \<rparr>"

subsection \<open>Writing an event\<close>

text \<open>The message about a short write prints \<^verbatim>\<open>sizeof(ev)\<close> with \<open>ev\<close> a pointer.\<close>

definition uhid_write :: "hdr \<Rightarrow> int \<Rightarrow> byte list \<Rightarrow> world \<Rightarrow> int \<times> world" where
  "uhid_write K fd ev w =
     (let r = wres w (length (wlog w));
          w1 = w\<lparr> wlog := wlog w @ [(fd, take (sizeof_event K) ev)] \<rparr>
      in if ret r < 0 then (- errno r, fprintf (Cannot_write_to_uhid (errno r)) w1)
         else if ret r \<noteq> int (sizeof_event K)
         then (- EFAULT K, fprintf (Wrong_size_written (ret r) (sizeof_ptr K)) w1)
         else (0, w1))"

text \<open>A function that had a local \<^verbatim>\<open>ev\<close> leaves its bytes behind on the stack.\<close>

definition leave :: "byte list \<Rightarrow> int \<times> world \<Rightarrow> int \<times> world" where
  "leave ev rw = (fst rw, (snd rw)\<lparr> stack := ev \<rparr>)"

subsection \<open>Creating and destroying the device\<close>

text \<open>The report descriptor: a three-button mouse with wheel.\<close>

definition rdesc :: "byte list" where
  "rdesc = [
     0x05, 0x01, 0x09, 0x02, 0xa1, 0x01, 0x09, 0x01,
     0xa1, 0x00, 0x05, 0x09, 0x19, 0x01, 0x29, 0x03,
     0x15, 0x00, 0x25, 0x01, 0x95, 0x03, 0x75, 0x01,
     0x81, 0x02, 0x95, 0x01, 0x75, 0x05, 0x81, 0x01,
     0x05, 0x01, 0x09, 0x30, 0x09, 0x31, 0x09, 0x38,
     0x15, 0x80, 0x25, 0x7f, 0x75, 0x08, 0x95, 0x03,
     0x81, 0x06, 0xc0, 0xc0]"

text \<open>
  The body of \<^verbatim>\<open>create\<close> up to the call of \<^verbatim>\<open>uhid_write\<close>, from the bytes \<open>ev\<close> found
  in the uninitialised local. The source copies the literal \<^verbatim>\<open>"test-uhid-device"\<close>;
  the string is an argument of the function that builds the event, and \<^verbatim>\<open>create\<close>
  below passes the literal, the one name the program has.
  \<open>rdesc_addr\<close> is the address of the array \<^verbatim>\<open>rdesc\<close>.
\<close>

definition create_event :: "hdr \<Rightarrow> string \<Rightarrow> nat \<Rightarrow> byte list \<Rightarrow> byte list" where
  "create_event K name rdesc_addr ev =
     (let ev = memset0 (sizeof_event K) ev;
          ev = store 0 (enc K 4 (unat (tag K UHID_CREATE))) ev;
          ev = strcpy (off_name K) name ev;
          ev = store (off_rd_data K) (enc K (sizeof_ptr K) rdesc_addr) ev;
          ev = store (off_rd_size K) (enc K 2 (length rdesc)) ev;
          ev = store (off_bus K) (enc K 2 (BUS_USB K)) ev;
          ev = store (off_vendor K) (enc K 4 0x15d9) ev;
          ev = store (off_product K) (enc K 4 0x0a37) ev;
          ev = store (off_version K) (enc K 4 0) ev;
          ev = store (off_country K) (enc K 4 0) ev
      in ev)"

definition create :: "hdr \<Rightarrow> int \<Rightarrow> nat \<Rightarrow> world \<Rightarrow> int \<times> world" where
  "create K fd rdesc_addr w =
     (let ev = create_event K ''test-uhid-device'' rdesc_addr (stack w)
      in leave ev (uhid_write K fd ev w))"

definition destroy_event :: "hdr \<Rightarrow> byte list \<Rightarrow> byte list" where
  "destroy_event K ev =
     (let ev = memset0 (sizeof_event K) ev;
          ev = store 0 (enc K 4 (unat (tag K UHID_DESTROY))) ev
      in ev)"

definition destroy :: "hdr \<Rightarrow> int \<Rightarrow> world \<Rightarrow> world" where
  "destroy K fd w =
     (let ev = destroy_event K (stack w)
      in snd (leave ev (uhid_write K fd ev w)))"

subsection \<open>Events from the kernel\<close>

definition event_msg :: "hdr \<Rightarrow> nat \<Rightarrow> msg" where
  "event_msg K t =
     (if t = unat (tag K UHID_START) then From_uhid_dev UHID_START
      else if t = unat (tag K UHID_STOP) then From_uhid_dev UHID_STOP
      else if t = unat (tag K UHID_OPEN) then From_uhid_dev UHID_OPEN
      else if t = unat (tag K UHID_CLOSE) then From_uhid_dev UHID_CLOSE
      else if t = unat (tag K UHID_OUTPUT) then From_uhid_dev UHID_OUTPUT
      else if t = unat (tag K UHID_OUTPUT_EV) then From_uhid_dev UHID_OUTPUT_EV
      else Invalid_event t)"

definition event :: "hdr \<Rightarrow> int \<Rightarrow> byte rdres \<Rightarrow> world \<Rightarrow> int \<times> world" where
  "event K fd rd w =
     (let n = sizeof_event K;
          ev = memset0 n (stack w);
          r = read_ret n rd;
          ev = store 0 (read_data n rd) ev
      in leave ev
          (if r = 0 then (- EFAULT K, fprintf Read_HUP_on_uhid_cdev w)
           else if r < 0
           then (- read_errno rd, fprintf (Cannot_read_uhid_cdev (read_errno rd)) w)
           else if r \<noteq> int n then (- EFAULT K, fprintf (Invalid_size_read r n) w)
           else (0, fprintf (event_msg K (dec K (take 4 ev))) w)))"

subsection \<open>The state of the mouse and its reports\<close>

text \<open>The six file-scope variables; a \<^verbatim>\<open>signed char\<close> is a byte read with \<open>sint\<close>.\<close>

record mouse =
  btn1_down :: bool
  btn2_down :: bool
  btn3_down :: bool
  abs_hor :: byte
  abs_ver :: byte
  wheel :: byte

definition mouse0 :: mouse where
  "mouse0 = \<lparr> btn1_down = False, btn2_down = False, btn3_down = False,
               abs_hor = 0, abs_ver = 0, wheel = 0 \<rparr>"

definition or_byte :: "nat \<Rightarrow> byte \<Rightarrow> byte list \<Rightarrow> byte list" where
  "or_byte off v buf = buf[off := buf ! off OR v]"

definition input_event :: "hdr \<Rightarrow> mouse \<Rightarrow> byte list \<Rightarrow> byte list" where
  "input_event K st ev =
     (let ev = memset0 (sizeof_event K) ev;
          ev = store 0 (enc K 4 (unat (tag K UHID_INPUT))) ev;
          ev = store (off_size K) (enc K 2 4) ev;
          ev = (if btn1_down st then or_byte (off_data K) 0x1 ev else ev);
          ev = (if btn2_down st then or_byte (off_data K) 0x2 ev else ev);
          ev = (if btn3_down st then or_byte (off_data K) 0x4 ev else ev);
          ev = store (off_data K + 1) [abs_hor st] ev;
          ev = store (off_data K + 2) [abs_ver st] ev;
          ev = store (off_data K + 3) [wheel st] ev
      in ev)"

definition send_event :: "hdr \<Rightarrow> int \<Rightarrow> mouse \<Rightarrow> world \<Rightarrow> int \<times> world" where
  "send_event K fd st w =
     (let ev = input_event K st (stack w)
      in leave ev (uhid_write K fd ev w))"

text \<open>The four bytes of the HID report inside an event.\<close>

definition report :: "hdr \<Rightarrow> byte list \<Rightarrow> byte list" where
  "report K ev = take 4 (drop (off_data K) ev)"

subsection \<open>Commands from the keyboard\<close>

text \<open>
  One pass through the body of the \<^verbatim>\<open>for\<close> loop of \<^verbatim>\<open>keyboard\<close>, on the byte \<open>c\<close>,
  with \<open>r\<close> the value of the variable \<^verbatim>\<open>ret\<close>. The body either returns from
  \<^verbatim>\<open>keyboard\<close> or falls out of the \<^verbatim>\<open>switch\<close> with a new value of \<^verbatim>\<open>ret\<close>.
\<close>

datatype flow = Return int | Next int

definition sent :: "int \<Rightarrow> flow" where
  "sent r = (if r \<noteq> 0 then Return r else Next r)"

definition key_cmd :: "hdr \<Rightarrow> int \<Rightarrow> char \<Rightarrow> int \<Rightarrow> mouse \<Rightarrow> world \<Rightarrow> flow \<times> mouse \<times> world" where
  "key_cmd K fd c r st w =
     (if c = CHR ''1'' then
        (let st = st\<lparr> btn1_down := \<not> btn1_down st \<rparr>;
             (r, w) = send_event K fd st w
         in (sent r, st, w))
      else if c = CHR ''2'' then
        (let st = st\<lparr> btn2_down := \<not> btn2_down st \<rparr>;
             (r, w) = send_event K fd st w
         in (sent r, st, w))
      else if c = CHR ''3'' then
        (let st = st\<lparr> btn3_down := \<not> btn3_down st \<rparr>;
             (r, w) = send_event K fd st w
         in (sent r, st, w))
      else if c = CHR ''a'' then
        (let st = st\<lparr> abs_hor := - 20 \<rparr>;
             (r, w) = send_event K fd st w;
             st = st\<lparr> abs_hor := 0 \<rparr>
         in (sent r, st, w))
      else if c = CHR ''d'' then
        (let st = st\<lparr> abs_hor := 20 \<rparr>;
             (r, w) = send_event K fd st w;
             st = st\<lparr> abs_hor := 0 \<rparr>
         in (sent r, st, w))
      else if c = CHR ''w'' then
        (let st = st\<lparr> abs_ver := - 20 \<rparr>;
             (r, w) = send_event K fd st w;
             st = st\<lparr> abs_ver := 0 \<rparr>
         in (sent r, st, w))
      else if c = CHR ''s'' then
        (let st = st\<lparr> abs_ver := 20 \<rparr>;
             (r, w) = send_event K fd st w;
             st = st\<lparr> abs_ver := 0 \<rparr>
         in (sent r, st, w))
      else if c = CHR ''r'' then
        (let st = st\<lparr> wheel := 1 \<rparr>;
             (r, w) = send_event K fd st w;
             st = st\<lparr> wheel := 0 \<rparr>
         in (sent r, st, w))
      else if c = CHR ''f'' then
        (let st = st\<lparr> wheel := - 1 \<rparr>;
             (r, w) = send_event K fd st w;
             st = st\<lparr> wheel := 0 \<rparr>
         in (sent r, st, w))
      else if c = CHR ''q'' then (Return (- ECANCELED K), st, w)
      else (Next r, st, fprintf (Invalid_input c) w))"

text \<open>
  The loop \<^verbatim>\<open>for (i = 0; i < ret; ++i)\<close>, on the bytes of \<^verbatim>\<open>buf\<close> from index \<open>i\<close> on.
  The bound \<^verbatim>\<open>ret\<close> is the variable that the body assigns the result of
  \<^verbatim>\<open>send_event\<close> to, so it is an argument that changes from pass to pass.
  \<^verbatim>\<open>keyboard\<close> starts the loop with \<^verbatim>\<open>ret\<close> the number of bytes read, and \<^verbatim>\<open>ret\<close>
  never grows, so the bytes run out only when \<open>i\<close> has reached \<^verbatim>\<open>ret\<close>.
\<close>

fun key_loop :: "hdr \<Rightarrow> int \<Rightarrow> string \<Rightarrow> int \<Rightarrow> int \<Rightarrow> mouse \<Rightarrow> world \<Rightarrow> int \<times> mouse \<times> world" where
  "key_loop K fd [] i r st w = (0, st, w)"
| "key_loop K fd (c # cs) i r st w =
     (if i < r then
        (case key_cmd K fd c r st w of
           (Return r', st', w') \<Rightarrow> (r', st', w')
         | (Next r', st', w') \<Rightarrow> key_loop K fd cs (i + 1) r' st' w')
      else (0, st, w))"

definition keyboard :: "hdr \<Rightarrow> int \<Rightarrow> char rdres \<Rightarrow> mouse \<Rightarrow> world \<Rightarrow> int \<times> mouse \<times> world" where
  "keyboard K fd rd st w =
     (let r = read_ret 128 rd; buf = read_data 128 rd
      in if r = 0 then (- EFAULT K, st, fprintf Read_HUP_on_stdin w)
         else if r < 0 then (- read_errno rd, st, fprintf (Cannot_read_stdin (read_errno rd)) w)
         else key_loop K fd buf 0 r st w)"

subsection \<open>The main loop\<close>

text \<open>
  What one return of \<^verbatim>\<open>poll\<close> brings: its result, the \<^verbatim>\<open>revents\<close> of stdin and of the
  uhid device, and what a \<^verbatim>\<open>read\<close> on each of them returns if the program reads it.
\<close>

record iter =
  poll_res :: sysret
  revents0 :: "16 word"
  revents1 :: "16 word"
  stdin_rd :: "char rdres"
  uhid_rd :: "byte rdres"

text \<open>One pass through the body of \<^verbatim>\<open>while (1)\<close>: \<open>Some r\<close> is a \<^verbatim>\<open>break\<close> with
  \<^verbatim>\<open>ret\<close> equal to \<open>r\<close>, \<open>None\<close> goes round again.\<close>

definition iteration :: "hdr \<Rightarrow> int \<Rightarrow> iter \<Rightarrow> mouse \<Rightarrow> world \<Rightarrow> int option \<times> mouse \<times> world" where
  "iteration K fd it st w =
     (let r = ret (poll_res it)
      in if r < 0 then (Some r, st, fprintf (Cannot_poll_for_fds (errno (poll_res it))) w)
         else if revents0 it AND POLLHUP K \<noteq> 0 then (Some r, st, fprintf Received_HUP_on_stdin w)
         else if revents1 it AND POLLHUP K \<noteq> 0 then (Some r, st, fprintf Received_HUP_on_uhid_cdev w)
         else
           (let (r, st, w) = (if revents0 it AND POLLIN K \<noteq> 0
                              then keyboard K fd (stdin_rd it) st w else (0, st, w))
            in if r \<noteq> 0 then (Some r, st, w)
               else
                 (let (r, w) = (if revents1 it AND POLLIN K \<noteq> 0
                                then event K fd (uhid_rd it) w else (0, w))
                  in if r \<noteq> 0 then (Some r, st, w) else (None, st, w))))"

text \<open>The loop ends only when a pass breaks out of it: with no further return of
  \<^verbatim>\<open>poll\<close> the program waits, which is the result \<open>None\<close>.\<close>

fun main_loop :: "hdr \<Rightarrow> int \<Rightarrow> iter list \<Rightarrow> mouse \<Rightarrow> world \<Rightarrow> int option \<times> mouse \<times> world" where
  "main_loop K fd [] st w = (None, st, w)"
| "main_loop K fd (it # its) st w =
     (case iteration K fd it st w of
        (Some r, st', w') \<Rightarrow> (Some r, st', w')
      | (None, st', w') \<Rightarrow> main_loop K fd its st' w')"

record env =
  tcgetattr_ret :: int
  tcsetattr_ret :: int
  argv :: "string list"
  open_res :: sysret
  rdesc_addr :: nat
  polls :: "iter list"

text \<open>
  \<^verbatim>\<open>main\<close> up to the loop: the terminal, the arguments, \<^verbatim>\<open>open\<close> and \<^verbatim>\<open>create\<close>.
  \<open>Inl\<close> is a \<^verbatim>\<open>return\<close> with an exit status, \<open>Inr\<close> arrives at the loop with the
  descriptor of the device. Of the terminal only the two results count, which decide what
  is printed; \<^verbatim>\<open>close\<close> leaves no trace in the world.
\<close>

definition prologue :: "hdr \<Rightarrow> env \<Rightarrow> world \<Rightarrow> (int \<times> world) + (int \<times> world)" where
  "prologue K E w =
     (let w = (if tcgetattr_ret E \<noteq> 0 then fprintf Cannot_get_tty_state w
               else if tcsetattr_ret E \<noteq> 0 then fprintf Cannot_set_tty_state w else w);
          path = ''/dev/uhid''
      in if 2 \<le> length (argv E) \<and> (argv E ! 1 = ''-h'' \<or> argv E ! 1 = ''--help'')
         then Inl (EXIT_SUCCESS K, fprintf (Usage (argv E ! 0) path) w)
         else
           (let path = (if 2 \<le> length (argv E) then argv E ! 1 else path);
                w = fprintf (Open_uhid_cdev path) w;
                fd = ret (open_res E)
            in if fd < 0
               then Inl (EXIT_FAILURE K, fprintf (Cannot_open_uhid_cdev path (errno (open_res E))) w)
               else
                 (let w = fprintf Create_uhid_device w;
                      (r, w) = create K fd (rdesc_addr E) w
                  in if r \<noteq> 0 then Inl (EXIT_FAILURE K, w)
                     else Inr (fd, fprintf Press_q_to_quit w))))"

text \<open>\<^verbatim>\<open>main\<close>: the exit status, \<open>None\<close> while the program waits in \<^verbatim>\<open>poll\<close>. The
  static variables of the mouse start as zeros.\<close>

definition main :: "hdr \<Rightarrow> env \<Rightarrow> world \<Rightarrow> int option \<times> world" where
  "main K E w =
     (case prologue K E w of
        Inl (status, w) \<Rightarrow> (Some status, w)
      | Inr (fd, w) \<Rightarrow>
          (case main_loop K fd (polls E) mouse0 w of
             (None, st, w) \<Rightarrow> (None, w)
           | (Some r, st, w) \<Rightarrow>
               (Some (EXIT_SUCCESS K), destroy K fd (fprintf Destroy_uhid_device w))))"

subsection \<open>Notions used in the statements\<close>

text \<open>Byte 0 of a report as the report descriptor reads it: one bit for each button.\<close>

definition buttons :: "mouse \<Rightarrow> byte" where
  "buttons st = (if btn1_down st then 1 else 0) OR (if btn2_down st then 2 else 0)
                OR (if btn3_down st then 4 else 0)"

text \<open>The next \<^verbatim>\<open>write\<close> fails (leaving an error code), or transfers the wrong number
  of bytes; and the next \<^verbatim>\<open>write\<close>s all transfer a whole event.\<close>

definition write_fails :: "hdr \<Rightarrow> world \<Rightarrow> bool" where
  "write_fails K w =
     (let x = wres w (length (wlog w))
      in (ret x < 0 \<and> errno x \<noteq> 0) \<or> (0 \<le> ret x \<and> ret x \<noteq> int (sizeof_event K)))"

definition writes_ok :: "hdr \<Rightarrow> world \<Rightarrow> bool" where
  "writes_ok K w \<longleftrightarrow> (\<forall>n. ret (wres w n) = int (sizeof_event K))"

text \<open>A \<^verbatim>\<open>read\<close> that delivers a whole event.\<close>

definition full_read :: "hdr \<Rightarrow> byte rdres \<Rightarrow> bool" where
  "full_read K rd = (case rd of RdErr e \<Rightarrow> False | RdData bs \<Rightarrow> sizeof_event K \<le> length bs)"

text \<open>The type tag is none of the six that \<^verbatim>\<open>event\<close> knows.\<close>

definition unknown_tag :: "hdr \<Rightarrow> nat \<Rightarrow> bool" where
  "unknown_tag K t \<longleftrightarrow>
     t \<noteq> unat (tag K UHID_START) \<and> t \<noteq> unat (tag K UHID_STOP) \<and>
     t \<noteq> unat (tag K UHID_OPEN) \<and> t \<noteq> unat (tag K UHID_CLOSE) \<and>
     t \<noteq> unat (tag K UHID_OUTPUT) \<and> t \<noteq> unat (tag K UHID_OUTPUT_EV)"

text \<open>
  \<^verbatim>\<open>poll\<close> returns without error and without hang-up, and
  \<^item> \<open>uhid_turn\<close>: only the uhid device is readable;
  \<^item> \<open>key_turn c\<close>: stdin is readable and its \<^verbatim>\<open>read\<close> delivers the one byte \<open>c\<close>; the
    uhid device may be readable too, and then its \<^verbatim>\<open>read\<close> delivers a whole event.
\<close>

definition polled :: "hdr \<Rightarrow> iter \<Rightarrow> bool" where
  "polled K it \<longleftrightarrow>
     0 \<le> ret (poll_res it) \<and> revents0 it AND POLLHUP K = 0 \<and> revents1 it AND POLLHUP K = 0"

definition uhid_turn :: "hdr \<Rightarrow> iter \<Rightarrow> bool" where
  "uhid_turn K it \<longleftrightarrow>
     polled K it \<and> revents0 it AND POLLIN K = 0 \<and> revents1 it AND POLLIN K \<noteq> 0"

definition key_turn :: "hdr \<Rightarrow> char \<Rightarrow> iter \<Rightarrow> bool" where
  "key_turn K c it \<longleftrightarrow>
     polled K it \<and> revents0 it AND POLLIN K \<noteq> 0 \<and> stdin_rd it = RdData [c] \<and>
     (revents1 it AND POLLIN K = 0 \<or> full_read K (uhid_rd it))"

text \<open>Two worlds for the Linux headers: every write succeeds; every write fails with
  \<^verbatim>\<open>EIO\<close>.\<close>

definition quiet :: world where
  "quiet = \<lparr> wlog = [], wres = (\<lambda>n. \<lparr> ret = 4108, errno = 0 \<rparr>), stderr = [], stack = [] \<rparr>"

definition broken :: world where
  "broken = \<lparr> wlog = [], wres = (\<lambda>n. \<lparr> ret = - 1, errno = 5 \<rparr>), stderr = [], stack = [] \<rparr>"

text \<open>The HID reports written so far, each with the descriptor it was written to.\<close>

definition reports :: "hdr \<Rightarrow> world \<Rightarrow> (int \<times> byte list) list" where
  "reports K w = map (\<lambda>(f, ev). (f, report K ev)) (wlog w)"

text \<open>Returns of \<^verbatim>\<open>poll\<close> under the Linux headers: the device is readable and its
  \<^verbatim>\<open>read\<close> delivers \<open>bs\<close>; stdin is readable and its \<^verbatim>\<open>read\<close> delivers the byte \<open>c\<close>;
  both at once.\<close>

definition kernel_event :: "byte list \<Rightarrow> iter" where
  "kernel_event bs = \<lparr> poll_res = \<lparr> ret = 1, errno = 0 \<rparr>, revents0 = 0, revents1 = 1,
                       stdin_rd = RdErr 11, uhid_rd = RdData bs \<rparr>"

definition key_press :: "char \<Rightarrow> iter" where
  "key_press c = \<lparr> poll_res = \<lparr> ret = 1, errno = 0 \<rparr>, revents0 = 1, revents1 = 0,
                   stdin_rd = RdData [c], uhid_rd = RdErr 11 \<rparr>"

definition key_press_and_event :: "char \<Rightarrow> byte list \<Rightarrow> iter" where
  "key_press_and_event c bs = \<lparr> poll_res = \<lparr> ret = 2, errno = 0 \<rparr>, revents0 = 1, revents1 = 1,
                                stdin_rd = RdData [c], uhid_rd = RdData bs \<rparr>"


definition run_of :: "iter list \<Rightarrow> env" where
  "run_of its = \<lparr> tcgetattr_ret = 0, tcsetattr_ret = 0, argv = [''uhid-example''],
                  open_res = \<lparr> ret = 3, errno = 0 \<rparr>, rdesc_addr = 0, polls = its \<rparr>"


text \<open>The bytes of an event that belong to the members \<^verbatim>\<open>create\<close> assigns (the type,
  the name, the descriptor's address and size, bus, vendor, product, version and country),
  and to those \<^verbatim>\<open>send_event\<close> assigns (the type, the size and the first four bytes of
  data); \<^verbatim>\<open>destroy\<close> assigns the type only, bytes 0 to 3. \<open>outside i off len\<close>: the
  index \<open>i\<close> is not among the \<open>len\<close> bytes from \<open>off\<close>.\<close>

definition in_create_fields :: "hdr \<Rightarrow> nat \<Rightarrow> bool" where
  "in_create_fields K i \<longleftrightarrow>
     i < 4 \<or> (off_name K \<le> i \<and> i < off_name K + sizeof_name K)
     \<or> (off_rd_data K \<le> i \<and> i < off_rd_data K + sizeof_ptr K)
     \<or> (off_rd_size K \<le> i \<and> i < off_rd_size K + 2)
     \<or> (off_bus K \<le> i \<and> i < off_bus K + 2)
     \<or> (off_vendor K \<le> i \<and> i < off_vendor K + 4)
     \<or> (off_product K \<le> i \<and> i < off_product K + 4)
     \<or> (off_version K \<le> i \<and> i < off_version K + 4)
     \<or> (off_country K \<le> i \<and> i < off_country K + 4)"

definition in_input_fields :: "hdr \<Rightarrow> nat \<Rightarrow> bool" where
  "in_input_fields K i \<longleftrightarrow>
     i < 4 \<or> (off_data K \<le> i \<and> i < off_data K + 4) \<or> (off_size K \<le> i \<and> i < off_size K + 2)"

definition outside :: "nat \<Rightarrow> nat \<Rightarrow> nat \<Rightarrow> bool" where
  "outside i off len \<longleftrightarrow> i < off \<or> off + len \<le> i"

text \<open>A world whose stack is full of stale bytes.\<close>

definition dirty :: world where
  "dirty = \<lparr> wlog = [], wres = (\<lambda>n. \<lparr> ret = 4108, errno = 0 \<rparr>), stderr = [],
             stack = replicate 5000 0xAA \<rparr>"

text \<open>The states of the device lifecycle as the specification names them. The program
  declares no such type and has no variable that could hold one.\<close>

datatype spec_lifecycle = Uninitialized | Created | Active | Inactive | Destroyed


section \<open>Properties\<close>

subsection \<open>Bytes in memory\<close>

lemma length_store [simp]:
  "off + length bs \<le> length buf \<Longrightarrow> length (store off bs buf) = length buf"
  by (simp add: store_def)

lemma nth_store:
  "off + length bs \<le> length buf \<Longrightarrow> i < length buf \<Longrightarrow>
   store off bs buf ! i = (if off \<le> i \<and> i < off + length bs then bs ! (i - off) else buf ! i)"
  by (auto simp: store_def nth_append min_def)

lemma length_memset0 [simp]: "length (memset0 n buf) = n + (length buf - n)"
  by (simp add: memset0_def)

lemma nth_memset0 [simp]: "i < n \<Longrightarrow> memset0 n buf ! i = 0"
  by (simp add: memset0_def nth_append)

lemma length_le_bytes [simp]: "length (le_bytes n v) = n"
  by (simp add: le_bytes_def)

lemma length_enc [simp]: "length (enc K n v) = n"
  by (simp add: enc_def)

lemma length_or_byte [simp]: "length (or_byte off v buf) = length buf"
  by (simp add: or_byte_def)

lemma nth_or_byte:
  "off < length buf \<Longrightarrow> or_byte off v buf ! i = (if i = off then buf ! off OR v else buf ! i)"
  by (simp add: or_byte_def nth_list_update)

lemma take4_drop:
  "off + 4 \<le> length ev \<Longrightarrow>
   take 4 (drop off ev) = [ev ! off, ev ! (off + 1), ev ! (off + 2), ev ! (off + 3)]"
  by (rule nth_equalityI) (auto simp: nth_Cons' less_Suc_eq numeral_eq_Suc)

subsection \<open>Input events\<close>

lemma length_input_event:
  "wf_hdr K \<Longrightarrow> length (input_event K st ev) = sizeof_event K + (length ev - sizeof_event K)"
  by (simp add: input_event_def wf_hdr_def Let_def)

lemma report_input_event:
  assumes "wf_hdr K"
  shows "report K (input_event K st ev) = [buttons st, abs_hor st, abs_ver st, wheel st]"
  using assms unfolding report_def
  apply (subst take4_drop)
   apply (simp add: length_input_event wf_hdr_def)
  apply (simp add: input_event_def Let_def wf_hdr_def nth_store nth_or_byte buttons_def)
  done

lemma report_take:
  "off_data K + 4 \<le> n \<Longrightarrow> report K (take n ev) = report K ev"
  by (simp add: report_def drop_take min_def)

lemma wlog_uhid_write:
  "wlog (snd (uhid_write K fd ev w)) = wlog w @ [(fd, take (sizeof_event K) ev)]"
  by (simp add: uhid_write_def Let_def fprintf_def)

lemma wlog_send_event:
  "wlog (snd (send_event K fd st w))
     = wlog w @ [(fd, take (sizeof_event K) (input_event K st (stack w)))]"
  by (simp add: send_event_def leave_def Let_def wlog_uhid_write)

lemma uhid_write_fails:
  "wf_hdr K \<Longrightarrow> write_fails K w \<Longrightarrow> fst (uhid_write K fd ev w) \<noteq> 0"
  by (auto simp: uhid_write_def write_fails_def wf_hdr_def Let_def)

lemma send_event_fails:
  "wf_hdr K \<Longrightarrow> write_fails K w \<Longrightarrow> fst (send_event K fd st w) \<noteq> 0"
  by (simp add: send_event_def leave_def Let_def uhid_write_fails)

lemma wf_linux_hdr: "wf_hdr linux_hdr"
  by (simp add: wf_hdr_def linux_hdr_def)

text \<open>
  C4. For the state with buttons 1 and 3 down, button 2 up, a horizontal delta of -20 and
  no vertical or wheel movement, the report inside the event that \<^verbatim>\<open>send_event\<close>
  builds and writes is \<open>[0x05, 0xEC, 0x00, 0x00]\<close>, and \<open>0xEC\<close> is -20 as a signed
  byte. In general byte 0 is the button mask (bit 0, 1, 2 for button 1, 2, 3, no other
  bit) and bytes 1, 2, 3 are the horizontal, vertical and wheel deltas.
\<close>

theorem report_encoding:
  assumes "wf_hdr K"
  shows "report K (input_event K st ev) = [buttons st, abs_hor st, abs_ver st, wheel st]
       \<and> report K (input_event K \<lparr> btn1_down = True, btn2_down = False, btn3_down = True,
                                   abs_hor = - 20, abs_ver = 0, wheel = 0 \<rparr> ev)
           = [0x05, 0xEC, 0x00, 0x00]
       \<and> map (report K \<circ> snd)
           (wlog (snd (send_event K fd \<lparr> btn1_down = True, btn2_down = False, btn3_down = True,
                                         abs_hor = - 20, abs_ver = 0, wheel = 0 \<rparr> w)))
           = map (report K \<circ> snd) (wlog w) @ [[0x05, 0xEC, 0x00, 0x00]]
       \<and> sint (0xEC :: byte) = - 20"
proof -
  have n: "off_data K + 4 \<le> sizeof_event K"
    using assms by (simp add: wf_hdr_def)
  show ?thesis
    by (simp add: report_input_event[OF assms] wlog_send_event report_take[OF n] buttons_def)
qed

theorem report_encoding_witness:
  "wf_hdr linux_hdr
 \<and> report linux_hdr (input_event linux_hdr \<lparr> btn1_down = True, btn2_down = False,
      btn3_down = True, abs_hor = - 20, abs_ver = 0, wheel = 0 \<rparr> []) = [0x05, 0xEC, 0x00, 0x00]"
  using report_encoding[OF wf_linux_hdr, of _ "[]"] wf_linux_hdr by blast

subsection \<open>Commands from the keyboard\<close>

lemma keyboard_one:
  "keyboard K fd (RdData [c]) st w =
     (case key_cmd K fd c 1 st w of
        (Return r, st', w') \<Rightarrow> (r, st', w')
      | (Next r, st', w') \<Rightarrow> (0, st', w'))"
  by (simp add: keyboard_def read_ret_def read_data_def Let_def split: prod.splits flow.splits)

text \<open>
  C8. The command \<open>1\<close> done twice leaves \<^verbatim>\<open>btn1_down\<close> as it was, and so do \<open>2\<close> and
  \<open>3\<close> for \<^verbatim>\<open>btn2_down\<close> and \<^verbatim>\<open>btn3_down\<close>: from every state, whatever the value of
  \<^verbatim>\<open>ret\<close>, and whatever the two writes return (the worlds \<open>w\<close> and \<open>w'\<close> of the two
  commands are arbitrary). This holds of the body of the loop, and of two calls of
  \<^verbatim>\<open>keyboard\<close> that read one such byte each.
\<close>

theorem toggle_twice:
  "btn1_down (fst (snd (key_cmd K fd CHR ''1'' r'
       (fst (snd (key_cmd K fd CHR ''1'' r st w))) w'))) = btn1_down st
 \<and> btn2_down (fst (snd (key_cmd K fd CHR ''2'' r'
       (fst (snd (key_cmd K fd CHR ''2'' r st w))) w'))) = btn2_down st
 \<and> btn3_down (fst (snd (key_cmd K fd CHR ''3'' r'
       (fst (snd (key_cmd K fd CHR ''3'' r st w))) w'))) = btn3_down st
 \<and> btn1_down (fst (snd (keyboard K fd (RdData ''1'')
       (fst (snd (keyboard K fd (RdData ''1'') st w))) w'))) = btn1_down st
 \<and> btn2_down (fst (snd (keyboard K fd (RdData ''2'')
       (fst (snd (keyboard K fd (RdData ''2'') st w))) w'))) = btn2_down st
 \<and> btn3_down (fst (snd (keyboard K fd (RdData ''3'')
       (fst (snd (keyboard K fd (RdData ''3'') st w))) w'))) = btn3_down st"
  by (simp add: keyboard_one key_cmd_def Let_def split: prod.splits flow.splits)

text \<open>
  C3. After the body of the loop has run on a motion or wheel command, the delta that the
  command set is 0 again: \<^verbatim>\<open>abs_hor\<close> after \<open>a\<close> and \<open>d\<close>, \<^verbatim>\<open>abs_ver\<close> after \<open>w\<close> and
  \<open>s\<close>, \<^verbatim>\<open>wheel\<close> after \<open>r\<close> and \<open>f\<close>. This holds in every world, so whether the write
  of the report succeeded or failed, and so it holds when \<^verbatim>\<open>keyboard\<close> returns from
  reading such a byte.
\<close>

theorem transient_reset:
  "abs_hor (fst (snd (key_cmd K fd CHR ''a'' r st w))) = 0
 \<and> abs_hor (fst (snd (key_cmd K fd CHR ''d'' r st w))) = 0
 \<and> abs_ver (fst (snd (key_cmd K fd CHR ''w'' r st w))) = 0
 \<and> abs_ver (fst (snd (key_cmd K fd CHR ''s'' r st w))) = 0
 \<and> wheel (fst (snd (key_cmd K fd CHR ''r'' r st w))) = 0
 \<and> wheel (fst (snd (key_cmd K fd CHR ''f'' r st w))) = 0
 \<and> abs_hor (fst (snd (keyboard K fd (RdData ''a'') st w))) = 0
 \<and> abs_hor (fst (snd (keyboard K fd (RdData ''d'') st w))) = 0
 \<and> abs_ver (fst (snd (keyboard K fd (RdData ''w'') st w))) = 0
 \<and> abs_ver (fst (snd (keyboard K fd (RdData ''s'') st w))) = 0
 \<and> wheel (fst (snd (keyboard K fd (RdData ''r'') st w))) = 0
 \<and> wheel (fst (snd (keyboard K fd (RdData ''f'') st w))) = 0"
  by (simp add: keyboard_one key_cmd_def Let_def split: prod.splits flow.splits)

lemma key_loop_quit_prefix:
  "key_loop K fd (pre @ CHR ''q'' # rest) i r st w = key_loop K fd (pre @ [CHR ''q'']) i r st w"
proof (induction pre arbitrary: i r st w)
  case Nil
  show ?case by (simp add: key_cmd_def)
next
  case (Cons c pre)
  show ?case by (simp add: Cons.IH split: prod.splits flow.splits)
qed

lemma key_cmd_send_fails:
  assumes "wf_hdr K" "write_fails K w" "c \<in> set ''123adwsrf''"
  shows "\<exists>e st' w'. e \<noteq> 0 \<and> key_cmd K fd c r st w = (Return e, st', w')"
proof -
  have f: "fst (send_event K fd s w) \<noteq> 0" for s
    by (rule send_event_fails[OF assms(1,2)])
  have "c = CHR ''1'' \<or> c = CHR ''2'' \<or> c = CHR ''3'' \<or> c = CHR ''a'' \<or> c = CHR ''d''
      \<or> c = CHR ''w'' \<or> c = CHR ''s'' \<or> c = CHR ''r'' \<or> c = CHR ''f''"
    using assms(3) by simp
  then show ?thesis
    apply (elim disjE)
    using f
    by (simp_all add: key_cmd_def Let_def sent_def split_beta)
qed

text \<open>
  C10. When the loop comes to a \<open>q\<close> it returns \<^verbatim>\<open>-ECANCELED\<close> at once: the state and
  the world are as they were (nothing is written for \<open>q\<close>), and the bytes after the \<open>q\<close>
  have no influence on the result, whatever precedes it in the buffer. When the write of
  the report for a command fails, the loop returns the non-zero error there, and the bytes
  after that command have no influence either.
\<close>

theorem quit_and_failure_drop_the_rest:
  "(i < r \<longrightarrow> key_loop K fd (CHR ''q'' # rest) i r st w = (- ECANCELED K, st, w))
 \<and> key_loop K fd (pre @ CHR ''q'' # rest) i r st w = key_loop K fd (pre @ [CHR ''q'']) i r st w
 \<and> (wf_hdr K \<and> i < r \<and> c \<in> set ''123adwsrf'' \<and> write_fails K w \<longrightarrow>
      key_loop K fd (c # rest) i r st w = key_loop K fd [c] i r st w
    \<and> fst (key_loop K fd (c # rest) i r st w) \<noteq> 0)"
proof (intro conjI impI)
  show "key_loop K fd (CHR ''q'' # rest) i r st w = (- ECANCELED K, st, w)" if "i < r"
    using that by (simp add: key_cmd_def)
  show "key_loop K fd (pre @ CHR ''q'' # rest) i r st w = key_loop K fd (pre @ [CHR ''q'']) i r st w"
    by (rule key_loop_quit_prefix)
next
  assume a: "wf_hdr K \<and> i < r \<and> c \<in> set ''123adwsrf'' \<and> write_fails K w"
  then obtain e st' w' where e: "e \<noteq> 0" "key_cmd K fd c r st w = (Return e, st', w')"
    using key_cmd_send_fails by blast
  show "key_loop K fd (c # rest) i r st w = key_loop K fd [c] i r st w"
    using a e by simp
  show "fst (key_loop K fd (c # rest) i r st w) \<noteq> 0"
    using a e by simp
qed

theorem quit_and_failure_drop_the_rest_witness:
  "key_loop linux_hdr 3 (''2'' @ CHR ''q'' # ''1a'') 0 4 mouse0 broken
     = key_loop linux_hdr 3 (''2'' @ [CHR ''q'']) 0 4 mouse0 broken
 \<and> key_loop linux_hdr 3 (CHR ''q'' # ''1a'') 0 4 mouse0 broken = (- ECANCELED linux_hdr, mouse0, broken)
 \<and> key_loop linux_hdr 3 (CHR ''1'' # ''aq'') 0 3 mouse0 broken
     = key_loop linux_hdr 3 [CHR ''1''] 0 3 mouse0 broken
 \<and> fst (key_loop linux_hdr 3 (CHR ''1'' # ''aq'') 0 3 mouse0 broken) \<noteq> 0"
proof -
  have h: "wf_hdr linux_hdr \<and> (0::int) < 3 \<and> CHR ''1'' \<in> set ''123adwsrf''
           \<and> write_fails linux_hdr broken"
    by (simp add: wf_linux_hdr write_fails_def broken_def)
  have g: "(0::int) < 4" by simp
  show ?thesis
    using quit_and_failure_drop_the_rest
            [where K = linux_hdr and fd = 3 and i = 0 and r = 4 and st = mouse0
               and w = broken and pre = "''2''" and rest = "''1a''"]
          quit_and_failure_drop_the_rest
            [where K = linux_hdr and fd = 3 and i = 0 and r = 3 and st = mouse0
               and w = broken and c = "CHR ''1''" and rest = "''aq''"]
          h g
    by blast
qed

subsection \<open>Events from the kernel\<close>

lemma wf_ge4: "wf_hdr K \<Longrightarrow> 4 \<le> sizeof_event K"
  by (simp add: wf_hdr_def)

lemma event_short:
  assumes "length bs < sizeof_event K"
  shows "event K fd (RdData bs) w =
           (- EFAULT K,
            w\<lparr> stderr := stderr w @ [if bs = [] then Read_HUP_on_uhid_cdev
                                       else Invalid_size_read (int (length bs)) (sizeof_event K)],
               stack := store 0 bs (memset0 (sizeof_event K) (stack w)) \<rparr>)"
  using assms
  by (simp add: event_def Let_def read_ret_def read_data_def leave_def fprintf_def)

lemma take4_read:
  assumes "4 \<le> n" "n \<le> length bs"
  shows "take 4 (store 0 (take n bs) (memset0 n s)) = take 4 bs"
  using assms by (simp add: store_def min_def)

lemma event_full:
  assumes "wf_hdr K" "sizeof_event K \<le> length bs"
  shows "event K fd (RdData bs) w =
           (0, w\<lparr> stderr := stderr w @ [event_msg K (dec K (take 4 bs))],
                   stack := store 0 (take (sizeof_event K) bs) (memset0 (sizeof_event K) (stack w)) \<rparr>)"
  using assms(2) wf_ge4[OF assms(1)]
  by (simp add: event_def Let_def read_ret_def read_data_def leave_def fprintf_def take4_read min_def)

lemma event_msg_unknown: "unknown_tag K t \<Longrightarrow> event_msg K t = Invalid_event t"
  by (simp add: unknown_tag_def event_msg_def)

lemma iteration_uhid_turn:
  "uhid_turn K it \<Longrightarrow>
   iteration K fd it st w =
     (if fst (event K fd (uhid_rd it) w) \<noteq> 0
      then (Some (fst (event K fd (uhid_rd it) w)), st, snd (event K fd (uhid_rd it) w))
      else (None, st, snd (event K fd (uhid_rd it) w)))"
  by (simp add: uhid_turn_def polled_def iteration_def Let_def split_beta)

text \<open>
  C5. When the \<^verbatim>\<open>read\<close> on the device delivers fewer bytes than an event has, none
  included, \<^verbatim>\<open>event\<close> returns \<^verbatim>\<open>-EFAULT\<close>, which is not 0: it prints the one line about
  the hang-up or the size and does not look at the type tag, and the main loop ends there
  with that value, whatever would come next. When the \<^verbatim>\<open>read\<close> delivers a whole event
  whose tag is none of the six known ones, \<^verbatim>\<open>event\<close> prints the line about the invalid
  event and returns 0, and the main loop goes on with the next return of \<^verbatim>\<open>poll\<close>.
\<close>

theorem event_framing:
  assumes "wf_hdr K"
  shows "(length bs < sizeof_event K \<longrightarrow>
            event K fd (RdData bs) w =
              (- EFAULT K,
               w\<lparr> stderr := stderr w @ [if bs = [] then Read_HUP_on_uhid_cdev
                                          else Invalid_size_read (int (length bs)) (sizeof_event K)],
                  stack := store 0 bs (memset0 (sizeof_event K) (stack w)) \<rparr>)
          \<and> - EFAULT K \<noteq> 0
          \<and> (uhid_turn K it \<and> uhid_rd it = RdData bs \<longrightarrow>
               main_loop K fd (it # its) st w
                 = (Some (- EFAULT K), st, snd (event K fd (RdData bs) w))))
       \<and> (sizeof_event K \<le> length bs \<and> unknown_tag K (dec K (take 4 bs)) \<longrightarrow>
            event K fd (RdData bs) w =
              (0, w\<lparr> stderr := stderr w @ [Invalid_event (dec K (take 4 bs))],
                      stack := store 0 (take (sizeof_event K) bs)
                                 (memset0 (sizeof_event K) (stack w)) \<rparr>)
          \<and> (uhid_turn K it \<and> uhid_rd it = RdData bs \<longrightarrow>
               main_loop K fd (it # its) st w
                 = main_loop K fd its st (snd (event K fd (RdData bs) w))))"
proof (intro conjI impI)
  have nz: "- EFAULT K \<noteq> 0"
    using assms by (simp add: wf_hdr_def)
  {
    assume short: "length bs < sizeof_event K"
    show e: "event K fd (RdData bs) w =
              (- EFAULT K,
               w\<lparr> stderr := stderr w @ [if bs = [] then Read_HUP_on_uhid_cdev
                                          else Invalid_size_read (int (length bs)) (sizeof_event K)],
                  stack := store 0 bs (memset0 (sizeof_event K) (stack w)) \<rparr>)"
      by (rule event_short[OF short])
    show "- EFAULT K \<noteq> 0" by (rule nz)
    assume "uhid_turn K it \<and> uhid_rd it = RdData bs"
    then show "main_loop K fd (it # its) st w
                 = (Some (- EFAULT K), st, snd (event K fd (RdData bs) w))"
      using nz by (simp add: iteration_uhid_turn event_short[OF short])
  }
  {
    assume full: "sizeof_event K \<le> length bs \<and> unknown_tag K (dec K (take 4 bs))"
    show e: "event K fd (RdData bs) w =
              (0, w\<lparr> stderr := stderr w @ [Invalid_event (dec K (take 4 bs))],
                      stack := store 0 (take (sizeof_event K) bs)
                                 (memset0 (sizeof_event K) (stack w)) \<rparr>)"
      using full by (simp add: event_full[OF assms] event_msg_unknown)
    assume "uhid_turn K it \<and> uhid_rd it = RdData bs"
    then show "main_loop K fd (it # its) st w
                 = main_loop K fd its st (snd (event K fd (RdData bs) w))"
      by (simp add: iteration_uhid_turn e)
  }
qed

lemma uhid_turn_kernel_event: "uhid_turn linux_hdr (kernel_event bs)"
  by (simp add: uhid_turn_def polled_def kernel_event_def linux_hdr_def)

lemma sizeof_linux: "sizeof_event linux_hdr = 4108"
  by (simp add: linux_hdr_def)

theorem event_framing_witness:
  "main_loop linux_hdr 3 [kernel_event [2, 0, 0]] mouse0 quiet
     = (Some (- EFAULT linux_hdr), mouse0, snd (event linux_hdr 3 (RdData [2, 0, 0]) quiet))
 \<and> fst (event linux_hdr 3 (RdData []) quiet) = - 14
 \<and> main_loop linux_hdr 3 [kernel_event (99 # replicate 4107 0)] mouse0 quiet
     = (None, mouse0, snd (event linux_hdr 3 (RdData (99 # replicate 4107 0)) quiet))"
proof -
  have a: "length [2, 0, 0 :: byte] < sizeof_event linux_hdr"
    by (simp add: sizeof_linux)
  have a0: "length ([] :: byte list) < sizeof_event linux_hdr"
    by (simp add: sizeof_linux)
  have b: "sizeof_event linux_hdr \<le> length (99 # replicate 4107 (0 :: byte))
           \<and> unknown_tag linux_hdr (dec linux_hdr (take 4 (99 # replicate 4107 0)))"
    by (simp add: sizeof_linux unknown_tag_def dec_def le_val_def) (simp add: linux_hdr_def)
  have e: "EFAULT linux_hdr = 14" by (simp add: linux_hdr_def)
  show ?thesis
    using event_framing[OF wf_linux_hdr, of "[2, 0, 0]" 3 quiet "kernel_event [2, 0, 0]" "[]" mouse0] a
          event_framing[OF wf_linux_hdr, of "[]" 3 quiet] a0 e
          event_framing[OF wf_linux_hdr, of "99 # replicate 4107 0" 3 quiet
                          "kernel_event (99 # replicate 4107 0)" "[]" mouse0] b
          uhid_turn_kernel_event
    by (simp add: kernel_event_def)
qed

subsection \<open>The main loop on key presses\<close>

lemma send_event_ok:
  assumes "writes_ok K w"
  shows "send_event K fd st w =
           (0, w\<lparr> wlog := wlog w @ [(fd, take (sizeof_event K) (input_event K st (stack w)))],
                   stack := input_event K st (stack w) \<rparr>)"
  using assms by (simp add: send_event_def uhid_write_def leave_def Let_def writes_ok_def)

lemma event_full_read:
  assumes "wf_hdr K" "full_read K rd"
  shows "fst (event K fd rd w) = 0" "wlog (snd (event K fd rd w)) = wlog w"
        "wres (snd (event K fd rd w)) = wres w"
  using assms(2) by (auto simp: full_read_def event_full[OF assms(1)] split: rdres.splits)

lemma iteration_key_turn:
  assumes "wf_hdr K" "key_turn K c it"
  shows "\<exists>w''. iteration K fd it st w =
     (case keyboard K fd (RdData [c]) st w of
        (r, st', w') \<Rightarrow> if r \<noteq> 0 then (Some r, st', w') else (None, st', w'' w'))
     \<and> (\<forall>w'. wlog (w'' w') = wlog w' \<and> wres (w'' w') = wres w')"
proof (cases "revents1 it AND POLLIN K = 0")
  case True
  then show ?thesis
    using assms(2)
    by (intro exI[of _ "\<lambda>w. w"]) (simp add: key_turn_def polled_def iteration_def Let_def split_beta)
next
  case False
  then have f: "full_read K (uhid_rd it)"
    using assms(2) by (simp add: key_turn_def)
  show ?thesis
    using assms(2) False event_full_read[OF assms(1) f]
    by (intro exI[of _ "\<lambda>w. snd (event K fd (uhid_rd it) w)"])
       (simp add: key_turn_def polled_def iteration_def Let_def split_beta)
qed

lemma reports_send:
  assumes "wf_hdr K"
  shows "reports K (w\<lparr> wlog := wlog w @ [(fd, take (sizeof_event K) (input_event K st ev))], stack := s \<rparr>)
         = reports K w @ [(fd, [buttons st, abs_hor st, abs_ver st, wheel st])]"
proof -
  have n: "off_data K + 4 \<le> sizeof_event K"
    using assms by (simp add: wf_hdr_def)
  show ?thesis
    by (simp add: reports_def report_take[OF n] report_input_event[OF assms])
qed

lemma keyboard_1:
  assumes "writes_ok K w"
  shows "keyboard K fd (RdData [CHR ''1'']) st w =
           (0, st\<lparr> btn1_down := \<not> btn1_down st \<rparr>,
            w\<lparr> wlog := wlog w @ [(fd, take (sizeof_event K)
                   (input_event K (st\<lparr> btn1_down := \<not> btn1_down st \<rparr>) (stack w)))],
               stack := input_event K (st\<lparr> btn1_down := \<not> btn1_down st \<rparr>) (stack w) \<rparr>)"
  by (simp add: keyboard_one key_cmd_def Let_def send_event_ok[OF assms] sent_def)

lemma keyboard_a:
  assumes "writes_ok K w"
  shows "keyboard K fd (RdData [CHR ''a'']) st w =
           (0, st\<lparr> abs_hor := 0 \<rparr>,
            w\<lparr> wlog := wlog w @ [(fd, take (sizeof_event K)
                   (input_event K (st\<lparr> abs_hor := - 20 \<rparr>) (stack w)))],
               stack := input_event K (st\<lparr> abs_hor := - 20 \<rparr>) (stack w) \<rparr>)"
  by (simp add: keyboard_one key_cmd_def Let_def send_event_ok[OF assms] sent_def)

lemma turn_sends:
  assumes "wf_hdr K" "key_turn K c it" "writes_ok K w"
    and kb: "keyboard K fd (RdData [c]) st w =
           (0, st', w\<lparr> wlog := wlog w @ [(fd, take (sizeof_event K) (input_event K st1 (stack w)))],
                       stack := input_event K st1 (stack w) \<rparr>)"
  shows "\<exists>w'. iteration K fd it st w = (None, st', w')
            \<and> writes_ok K w'
            \<and> reports K w' = reports K w @ [(fd, [buttons st1, abs_hor st1, abs_ver st1, wheel st1])]"
proof -
  define wn where "wn = w\<lparr> wlog := wlog w @ [(fd, take (sizeof_event K) (input_event K st1 (stack w)))],
                       stack := input_event K st1 (stack w) \<rparr>"
  obtain w'' where i: "iteration K fd it st w =
     (case keyboard K fd (RdData [c]) st w of
        (r, st', w') \<Rightarrow> if r \<noteq> 0 then (Some r, st', w') else (None, st', w'' w'))"
     and k: "\<And>w'. wlog (w'' w') = wlog w' \<and> wres (w'' w') = wres w'"
    using iteration_key_turn[OF assms(1,2)] by blast
  have a: "iteration K fd it st w = (None, st', w'' wn)"
    by (simp add: i kb wn_def)
  have b: "writes_ok K (w'' wn)"
    using assms(3) by (simp add: writes_ok_def k wn_def)
  have "reports K (w'' wn) = reports K wn"
    by (simp add: reports_def k)
  then have c: "reports K (w'' wn)
                  = reports K w @ [(fd, [buttons st1, abs_hor st1, abs_ver st1, wheel st1])]"
    by (simp add: wn_def reports_send[OF assms(1)])
  show ?thesis
    using a b c by blast
qed

lemma turn_1:
  assumes "wf_hdr K" "key_turn K CHR ''1'' it" "writes_ok K w"
  shows "\<exists>w'. iteration K fd it st w = (None, st\<lparr> btn1_down := \<not> btn1_down st \<rparr>, w')
            \<and> writes_ok K w'
            \<and> reports K w' = reports K w
                @ [(fd, [buttons (st\<lparr> btn1_down := \<not> btn1_down st \<rparr>), abs_hor st, abs_ver st, wheel st])]"
  using turn_sends[OF assms keyboard_1[OF assms(3)]] by simp

lemma turn_a:
  assumes "wf_hdr K" "key_turn K CHR ''a'' it" "writes_ok K w"
  shows "\<exists>w'. iteration K fd it st w = (None, st\<lparr> abs_hor := 0 \<rparr>, w')
            \<and> writes_ok K w'
            \<and> reports K w' = reports K w @ [(fd, [buttons st, - 20, abs_ver st, wheel st])]"
  using turn_sends[OF assms keyboard_a[OF assms(3)]] by (simp add: buttons_def)

lemma turn_q:
  assumes "wf_hdr K" "key_turn K CHR ''q'' it"
  shows "iteration K fd it st w = (Some (- ECANCELED K), st, w)"
proof -
  obtain w'' where i: "iteration K fd it st w =
     (case keyboard K fd (RdData [CHR ''q'']) st w of
        (r, st', w') \<Rightarrow> if r \<noteq> 0 then (Some r, st', w') else (None, st', w'' w'))"
    using iteration_key_turn[OF assms(1,2)] by blast
  show ?thesis
    using assms(1) by (simp add: i keyboard_one key_cmd_def wf_hdr_def)
qed

lemma four_keys:
  assumes "wf_hdr K" "writes_ok K w"
    and "key_turn K CHR ''1'' i1" "key_turn K CHR ''a'' i2"
    and "key_turn K CHR ''1'' i3" "key_turn K CHR ''q'' i4"
  shows "\<exists>w'. main_loop K fd (i1 # i2 # i3 # i4 # rest) mouse0 w = (Some (- ECANCELED K), mouse0, w')
            \<and> reports K w' = reports K w @ [(fd, [0x01, 0x00, 0x00, 0x00]),
                  (fd, [0x01, 0xEC, 0x00, 0x00]), (fd, [0x00, 0x00, 0x00, 0x00])]"
proof -
  define s1 where "s1 = mouse0\<lparr> btn1_down := \<not> btn1_down mouse0 \<rparr>"
  define s2 where "s2 = s1\<lparr> abs_hor := 0 \<rparr>"
  define s3 where "s3 = s2\<lparr> btn1_down := \<not> btn1_down s2 \<rparr>"
  obtain w1 where 1: "iteration K fd i1 mouse0 w = (None, s1, w1)" "writes_ok K w1"
      "reports K w1 = reports K w @ [(fd, [buttons s1, abs_hor mouse0, abs_ver mouse0, wheel mouse0])]"
    unfolding s1_def using turn_1[OF assms(1,3,2)] by blast
  obtain w2 where 2: "iteration K fd i2 s1 w1 = (None, s2, w2)" "writes_ok K w2"
      "reports K w2 = reports K w1 @ [(fd, [buttons s1, - 20, abs_ver s1, wheel s1])]"
    unfolding s2_def using turn_a[OF assms(1,4) 1(2)] by blast
  obtain w3 where 3: "iteration K fd i3 s2 w2 = (None, s3, w3)" "writes_ok K w3"
      "reports K w3 = reports K w2 @ [(fd, [buttons s3, abs_hor s2, abs_ver s2, wheel s2])]"
    unfolding s3_def using turn_1[OF assms(1,5) 2(2)] by blast
  have 4: "iteration K fd i4 s3 w3 = (Some (- ECANCELED K), s3, w3)"
    by (rule turn_q[OF assms(1,6)])
  have m: "main_loop K fd (i1 # i2 # i3 # i4 # rest) mouse0 w = (Some (- ECANCELED K), s3, w3)"
    by (simp add: 1(1) 2(1) 3(1) 4)
  have s: "s3 = mouse0" "buttons s1 = 1" "buttons s3 = 0" "abs_ver s1 = 0" "wheel s1 = 0"
    "abs_hor s2 = 0" "abs_ver s2 = 0" "wheel s2 = 0" "abs_hor mouse0 = 0" "abs_ver mouse0 = 0"
    "wheel mouse0 = 0" "buttons mouse0 = 0"
    by (simp_all add: s1_def s2_def s3_def mouse0_def buttons_def)
  have "reports K w3 = reports K w @ [(fd, [0x01, 0x00, 0x00, 0x00]),
                  (fd, [0x01, 0xEC, 0x00, 0x00]), (fd, [0x00, 0x00, 0x00, 0x00])]"
    by (simp add: 1(3) 2(3) 3(3) s)
  then show ?thesis
    using m s(1) by simp
qed

lemma writes_ok_quiet: "writes_ok linux_hdr quiet"
  by (simp add: writes_ok_def quiet_def sizeof_linux)

lemma key_turn_key_press: "key_turn linux_hdr c (key_press c)"
  by (simp add: key_turn_def polled_def key_press_def linux_hdr_def)

lemma key_turn_key_press_and_event:
  "4108 \<le> length bs \<Longrightarrow> key_turn linux_hdr c (key_press_and_event c bs)"
  by (simp add: key_turn_def polled_def key_press_and_event_def full_read_def sizeof_linux)
     (simp add: linux_hdr_def)

text \<open>
  C1, as the program has it. The bytes \<open>1\<close>, \<open>a\<close>, \<open>1\<close>, \<open>q\<close> arrive one per \<^verbatim>\<open>read\<close>,
  in four returns of \<^verbatim>\<open>poll\<close> without hang-up, and every \<^verbatim>\<open>write\<close> succeeds. Then the
  program writes exactly three reports, one for each of the first three bytes: button 1
  down, \<open>[01 00 00 00]\<close>; button 1 down with a horizontal delta of -20, \<open>[01 EC 00 00]\<close>,
  after which the delta is 0 again; button 1 up, \<open>[00 00 00 00]\<close>. On the \<open>q\<close> the loop
  ends with \<^verbatim>\<open>ret = -ECANCELED\<close> and the mouse as at the start, whatever \<^verbatim>\<open>poll\<close> would
  return after that. Whole events that the kernel sends in the same four passes (the
  device being readable as well, with any type tag) change nothing of this.
\<close>

theorem one_a_one_q:
  assumes "wf_hdr K" "writes_ok K w"
    and "key_turn K CHR ''1'' i1" "key_turn K CHR ''a'' i2"
    and "key_turn K CHR ''1'' i3" "key_turn K CHR ''q'' i4"
  shows "fst (main_loop K fd (i1 # i2 # i3 # i4 # rest) mouse0 w) = Some (- ECANCELED K)
       \<and> fst (snd (main_loop K fd (i1 # i2 # i3 # i4 # rest) mouse0 w)) = mouse0
       \<and> reports K (snd (snd (main_loop K fd (i1 # i2 # i3 # i4 # rest) mouse0 w)))
           = reports K w @ [(fd, [0x01, 0x00, 0x00, 0x00]), (fd, [0x01, 0xEC, 0x00, 0x00]),
                            (fd, [0x00, 0x00, 0x00, 0x00])]"
proof -
  obtain w' where
    run: "main_loop K fd (i1 # i2 # i3 # i4 # rest) mouse0 w = (Some (- ECANCELED K), mouse0, w')"
    and written: "reports K w' = reports K w @ [(fd, [0x01, 0x00, 0x00, 0x00]),
                  (fd, [0x01, 0xEC, 0x00, 0x00]), (fd, [0x00, 0x00, 0x00, 0x00])]"
    using four_keys[OF assms] by blast
  show ?thesis
    unfolding run using written by simp
qed

theorem one_a_one_q_witness:
  "fst (main_loop linux_hdr 3
          [key_press_and_event CHR ''1'' (2 # replicate 4107 0), key_press CHR ''a'',
           key_press_and_event CHR ''1'' (3 # replicate 4107 0), key_press CHR ''q'',
           kernel_event []] mouse0 quiet) = Some (- 125)
 \<and> reports linux_hdr (snd (snd (main_loop linux_hdr 3
          [key_press_and_event CHR ''1'' (2 # replicate 4107 0), key_press CHR ''a'',
           key_press_and_event CHR ''1'' (3 # replicate 4107 0), key_press CHR ''q'',
           kernel_event []] mouse0 quiet)))
     = [(3, [0x01, 0x00, 0x00, 0x00]), (3, [0x01, 0xEC, 0x00, 0x00]), (3, [0x00, 0x00, 0x00, 0x00])]"
proof -
  have l: "4108 \<le> length (x # replicate 4107 (0 :: byte))" for x
    by simp
  have e: "ECANCELED linux_hdr = 125" "reports linux_hdr quiet = []"
    by (simp_all add: linux_hdr_def reports_def quiet_def)
  show ?thesis
    using one_a_one_q[OF wf_linux_hdr writes_ok_quiet
            key_turn_key_press_and_event[OF l[of 2]] key_turn_key_press
            key_turn_key_press_and_event[OF l[of 3]] key_turn_key_press,
            where fd = 3 and rest = "[kernel_event []]"]
    unfolding e by simp
qed

text \<open>Four key presses and nothing from the kernel: three reports are written, not two,
  and the first has button 1 down and no movement.\<close>

theorem two_reports_counterexample:
  "length (wlog (snd (snd (main_loop linux_hdr 3
      [key_press CHR ''1'', key_press CHR ''a'', key_press CHR ''1'', key_press CHR ''q'']
      mouse0 quiet)))) = 3
 \<and> reports linux_hdr (snd (snd (main_loop linux_hdr 3
      [key_press CHR ''1'', key_press CHR ''a'', key_press CHR ''1'', key_press CHR ''q'']
      mouse0 quiet)))
     = [(3, [0x01, 0x00, 0x00, 0x00]), (3, [0x01, 0xEC, 0x00, 0x00]), (3, [0x00, 0x00, 0x00, 0x00])]"
proof -
  have e: "reports linux_hdr quiet = []"
    by (simp add: reports_def quiet_def)
  have r: "reports linux_hdr (snd (snd (main_loop linux_hdr 3
      [key_press CHR ''1'', key_press CHR ''a'', key_press CHR ''1'', key_press CHR ''q'']
      mouse0 quiet)))
     = [(3, [0x01, 0x00, 0x00, 0x00]), (3, [0x01, 0xEC, 0x00, 0x00]), (3, [0x00, 0x00, 0x00, 0x00])]"
  proof -
    obtain w' where
      run: "main_loop linux_hdr 3
              [key_press CHR ''1'', key_press CHR ''a'', key_press CHR ''1'', key_press CHR ''q'']
              mouse0 quiet = (Some (- ECANCELED linux_hdr), mouse0, w')"
      and written: "reports linux_hdr w' = reports linux_hdr quiet @ [(3, [0x01, 0x00, 0x00, 0x00]),
                  (3, [0x01, 0xEC, 0x00, 0x00]), (3, [0x00, 0x00, 0x00, 0x00])]"
      using four_keys[OF wf_linux_hdr writes_ok_quiet key_turn_key_press key_turn_key_press
              key_turn_key_press key_turn_key_press, where fd = 3 and rest = "[]"]
      by blast
    show ?thesis
      unfolding run using written by (simp add: e)
  qed
  have l: "length (wlog w) = length (reports linux_hdr w)" for w
    by (simp add: reports_def)
  show ?thesis
    unfolding l r by simp
qed

subsection \<open>The bytes of the events written\<close>

lemma store_append:
  "off + length bs \<le> length xs \<Longrightarrow> store off bs (xs @ ys) = store off bs xs @ ys"
  by (simp add: store_def)

lemma or_byte_append:
  "off < length xs \<Longrightarrow> or_byte off v (xs @ ys) = or_byte off v xs @ ys"
  by (simp add: or_byte_def list_update_append nth_append)

lemma memset0_split: "memset0 n ev = replicate n 0 @ drop n ev"
  by (simp add: memset0_def)

lemma c_string_name:
  "c_string ''test-uhid-device''
     = [116, 101, 115, 116, 45, 117, 104, 105, 100, 45, 100, 101, 118, 105, 99, 101, 0]"
  by (simp add: c_string_def)

lemma length_c_string_name: "length (c_string ''test-uhid-device'') = 17"
  by (simp add: c_string_name)

lemma input_event_split:
  assumes "wf_hdr K"
  shows "input_event K st ev = input_event K st [] @ drop (sizeof_event K) ev"
  using assms
  by (simp add: input_event_def Let_def memset0_split store_append or_byte_append wf_hdr_def)

lemma destroy_event_split:
  assumes "wf_hdr K"
  shows "destroy_event K ev = destroy_event K [] @ drop (sizeof_event K) ev"
  using assms
  by (simp add: destroy_event_def Let_def memset0_split store_append wf_hdr_def)

lemma create_event_split:
  assumes "wf_hdr K"
  shows "create_event K ''test-uhid-device'' a ev
           = create_event K ''test-uhid-device'' a [] @ drop (sizeof_event K) ev"
  using assms
  by (simp add: create_event_def Let_def memset0_split store_append strcpy_def c_string_name
        wf_hdr_def)

lemma length_base:
  assumes "wf_hdr K"
  shows "length (input_event K st []) = sizeof_event K"
        "length (destroy_event K []) = sizeof_event K"
        "length (create_event K ''test-uhid-device'' a []) = sizeof_event K"
  using assms
  by (simp_all add: input_event_def destroy_event_def create_event_def Let_def strcpy_def
        c_string_name wf_hdr_def)

lemma take_events:
  assumes "wf_hdr K"
  shows "take (sizeof_event K) (input_event K st ev) = input_event K st []"
        "take (sizeof_event K) (destroy_event K ev) = destroy_event K []"
        "take (sizeof_event K) (create_event K ''test-uhid-device'' a ev)
           = create_event K ''test-uhid-device'' a []"
  using length_base[OF assms]
  by (subst input_event_split[OF assms] destroy_event_split[OF assms] create_event_split[OF assms],
      simp)+

lemma nth_store_other:
  "off + length bs \<le> length buf \<Longrightarrow> i < length buf \<Longrightarrow> outside i off (length bs) \<Longrightarrow>
   store off bs buf ! i = buf ! i"
  by (auto simp: nth_store outside_def)

lemma nth_or_byte_other:
  "off < length buf \<Longrightarrow> i \<noteq> off \<Longrightarrow> or_byte off v buf ! i = buf ! i"
  by (simp add: nth_or_byte)

lemma outsideI: "\<not> (off \<le> i \<and> i < off + len) \<Longrightarrow> outside i off len"
  by (auto simp: outside_def)

lemma input_zero_outside:
  assumes "wf_hdr K" "i < sizeof_event K" "\<not> in_input_fields K i"
  shows "input_event K st [] ! i = 0"
proof -
  have d: "i < off_data K \<or> off_data K + 4 \<le> i"
    using assms(3) by (auto simp: in_input_fields_def)
  have r: "outside i 0 4" "outside i (off_size K) 2"
    using assms(3) by (auto simp: in_input_fields_def outside_def)
  have o: "i \<noteq> off_data K" "outside i (off_data K + 1) 1"
    "outside i (off_data K + 2) 1" "outside i (off_data K + 3) 1"
    using d by (auto simp: outside_def)
  show ?thesis
    using assms(1,2) r o
    by (simp add: input_event_def Let_def nth_store_other nth_or_byte_other wf_hdr_def)
qed

lemma destroy_zero_outside:
  assumes "wf_hdr K" "i < sizeof_event K" "\<not> i < 4"
  shows "destroy_event K [] ! i = 0"
proof -
  have r: "outside i 0 4"
    using assms(3) by (simp add: outside_def)
  show ?thesis
    using assms(1,2) r
    by (simp add: destroy_event_def Let_def nth_store_other wf_hdr_def)
qed

lemma create_zero_outside:
  assumes "wf_hdr K" "i < sizeof_event K" "\<not> in_create_fields K i"
  shows "create_event K ''test-uhid-device'' a [] ! i = 0"
proof -
  have r: "outside i 0 4"
    "outside i (off_rd_data K) (sizeof_ptr K)"
    "outside i (off_rd_size K) 2"
    "outside i (off_bus K) 2"
    "outside i (off_vendor K) 4"
    "outside i (off_product K) 4"
    "outside i (off_version K) 4"
    "outside i (off_country K) 4"
    using assms(3) unfolding in_create_fields_def by (intro outsideI; simp)+
  have "outside i (off_name K) (sizeof_name K)"
    using assms(3) unfolding in_create_fields_def by (intro outsideI; simp)
  moreover have "17 \<le> sizeof_name K"
    using assms(1) by (simp add: wf_hdr_def)
  ultimately have n: "outside i (off_name K) 17"
    by (auto simp: outside_def)
  show ?thesis
    using assms(1,2) r n
    by (simp add: create_event_def Let_def nth_store_other strcpy_def length_c_string_name
          wf_hdr_def)
qed




lemma wlog_create:
  assumes "wf_hdr K"
  shows "wlog (snd (create K fd a w)) = wlog w @ [(fd, create_event K ''test-uhid-device'' a [])]"
  by (simp add: create_def leave_def Let_def wlog_uhid_write take_events[OF assms])

lemma wlog_destroy:
  assumes "wf_hdr K"
  shows "wlog (destroy K fd w) = wlog w @ [(fd, destroy_event K [])]"
  by (simp add: destroy_def leave_def Let_def wlog_uhid_write take_events[OF assms])

lemma wlog_send_event_zeroed:
  assumes "wf_hdr K"
  shows "wlog (snd (send_event K fd st w)) = wlog w @ [(fd, input_event K st [])]"
  by (simp add: wlog_send_event take_events[OF assms])

text \<open>
  C9. \<^verbatim>\<open>create\<close>, \<^verbatim>\<open>destroy\<close> and \<^verbatim>\<open>send_event\<close> clear the whole event before they
  assign its members. So the bytes each of them writes are those built from an all-zero
  event: they depend on the values assigned (the address of the descriptor, the state of
  the mouse) and on nothing else, in particular not on what earlier calls left on the
  stack (the world \<open>w\<close> is arbitrary); two calls with the same values write the same
  bytes. And every byte of the event outside the members assigned is 0.
\<close>

theorem events_are_zeroed:
  assumes "wf_hdr K"
  shows "wlog (snd (create K fd a w)) = wlog w @ [(fd, create_event K ''test-uhid-device'' a [])]
       \<and> wlog (destroy K fd w) = wlog w @ [(fd, destroy_event K [])]
       \<and> wlog (snd (send_event K fd st w)) = wlog w @ [(fd, input_event K st [])]
       \<and> (i < sizeof_event K \<and> \<not> in_create_fields K i
            \<longrightarrow> create_event K ''test-uhid-device'' a [] ! i = 0)
       \<and> (i < sizeof_event K \<and> \<not> i < 4 \<longrightarrow> destroy_event K [] ! i = 0)
       \<and> (i < sizeof_event K \<and> \<not> in_input_fields K i \<longrightarrow> input_event K st [] ! i = 0)"
  using wlog_create[OF assms] wlog_destroy[OF assms] wlog_send_event_zeroed[OF assms]
    create_zero_outside[OF assms] destroy_zero_outside[OF assms] input_zero_outside[OF assms]
  by blast

lemma linux_layout:
  "sizeof_event linux_hdr = 4108" "off_name linux_hdr = 4" "sizeof_name linux_hdr = 128"
  "off_rd_data linux_hdr = 260" "sizeof_ptr linux_hdr = 8" "off_rd_size linux_hdr = 268"
  "off_bus linux_hdr = 270" "off_vendor linux_hdr = 272" "off_product linux_hdr = 276"
  "off_version linux_hdr = 280" "off_country linux_hdr = 284" "off_data linux_hdr = 4"
  "off_size linux_hdr = 4100"
  by (simp_all add: linux_hdr_def)

theorem events_are_zeroed_witness:
  "wlog (snd (send_event linux_hdr 3 mouse0 dirty)) = [(3, input_event linux_hdr mouse0 [])]
 \<and> wlog (snd (create linux_hdr 3 0 dirty)) = [(3, create_event linux_hdr ''test-uhid-device'' 0 [])]
 \<and> create_event linux_hdr ''test-uhid-device'' 0 [] ! 200 = 0
 \<and> destroy_event linux_hdr [] ! 200 = 0
 \<and> input_event linux_hdr mouse0 [] ! 200 = 0"
proof -
  have h: "(200::nat) < sizeof_event linux_hdr \<and> \<not> in_create_fields linux_hdr 200"
    "(200::nat) < sizeof_event linux_hdr \<and> \<not> (200::nat) < 4"
    "(200::nat) < sizeof_event linux_hdr \<and> \<not> in_input_fields linux_hdr 200"
    by (simp_all add: in_create_fields_def in_input_fields_def linux_layout)
  have d: "wlog dirty = []"
    by (simp add: dirty_def)
  show ?thesis
    using events_are_zeroed[OF wf_linux_hdr, where fd = 3 and a = 0 and w = dirty and st = mouse0
                              and i = 200] h d
    by simp
qed





subsection \<open>The exit status\<close>






lemma linux_consts:
  "EFAULT linux_hdr = 14" "ECANCELED linux_hdr = 125" "EXIT_SUCCESS linux_hdr = 0"
  "EXIT_FAILURE linux_hdr = 1" "POLLIN linux_hdr = 1" "POLLHUP linux_hdr = 16"
  by (simp_all add: linux_hdr_def)



lemma prologue_run_of:
  assumes "ret (wres w (length (wlog w))) = 4108"
  shows "prologue linux_hdr (run_of its) w
     = Inr (3, fprintf Press_q_to_quit
                 (snd (create linux_hdr 3 0 (fprintf Create_uhid_device (fprintf (Open_uhid_cdev ''/dev/uhid'') w)))))"
  using assms
  by (simp add: prologue_def run_of_def Let_def split_beta create_def leave_def uhid_write_def
        fprintf_def sizeof_linux)


subsection \<open>The lifecycle of the device\<close>

lemma event_msg_start: "event_msg K (unat (tag K UHID_START)) = From_uhid_dev UHID_START"
  by (simp add: event_msg_def)

lemma event_msg_stop:
  "tag K UHID_STOP \<noteq> tag K UHID_START \<Longrightarrow>
   event_msg K (unat (tag K UHID_STOP)) = From_uhid_dev UHID_STOP"
  by (simp add: event_msg_def word_unat_eq_iff)

lemma iteration_whole_event:
  assumes "wf_hdr K" "uhid_turn K it" "full_read K (uhid_rd it)"
  shows "iteration K fd it st w = (None, st, snd (event K fd (uhid_rd it) w))"
  using event_full_read(1)[OF assms(1,3)] by (simp add: iteration_uhid_turn[OF assms(2)])

lemma wlog_prologue:
  assumes "wf_hdr K" "prologue K E w = Inr (fd, w1)"
  shows "wlog w1 = wlog w @ [(fd, create_event K ''test-uhid-device'' (rdesc_addr E) [])]"
  using assms(2) wlog_create[OF assms(1)]
  by (auto simp: prologue_def Let_def split_beta fprintf_def split: if_splits)

text \<open>
  C7, as the program has it. The program holds no lifecycle state. A whole event from the
  kernel, Start and Stop among them, is answered by a line on stderr and nothing else:
  \<^verbatim>\<open>event\<close> returns 0, writes nothing to the device, and the loop goes on with the
  variables of the program as they were. What the program fixes is the order of its own
  writes: the Create event is written before the loop is entered, and whenever the loop
  ends, for whatever reason, the Destroy event is written last.
\<close>

theorem lifecycle_is_not_tracked:
  assumes "wf_hdr K"
  shows "(uhid_turn K it \<and> full_read K (uhid_rd it) \<longrightarrow>
            main_loop K fd (it # its) st w = main_loop K fd its st (snd (event K fd (uhid_rd it) w))
          \<and> fst (event K fd (uhid_rd it) w) = 0
          \<and> wlog (snd (event K fd (uhid_rd it) w)) = wlog w)
       \<and> (sizeof_event K \<le> length bs \<and> dec K (take 4 bs) = unat (tag K UHID_START) \<longrightarrow>
            stderr (snd (event K fd (RdData bs) w)) = stderr w @ [From_uhid_dev UHID_START])
       \<and> (sizeof_event K \<le> length bs \<and> dec K (take 4 bs) = unat (tag K UHID_STOP)
            \<and> tag K UHID_STOP \<noteq> tag K UHID_START \<longrightarrow>
            stderr (snd (event K fd (RdData bs) w)) = stderr w @ [From_uhid_dev UHID_STOP])
       \<and> (prologue K E w = Inr (fd, w1) \<longrightarrow>
            wlog w1 = wlog w @ [(fd, create_event K ''test-uhid-device'' (rdesc_addr E) [])])
       \<and> (prologue K E w = Inr (fd, w1) \<and> main_loop K fd (polls E) mouse0 w1 = (Some r, st', w2) \<longrightarrow>
            wlog (snd (main K E w)) = wlog w2 @ [(fd, destroy_event K [])])"
proof (intro conjI impI)
  {
    assume a: "uhid_turn K it \<and> full_read K (uhid_rd it)"
    show "main_loop K fd (it # its) st w = main_loop K fd its st (snd (event K fd (uhid_rd it) w))"
      using a by (simp add: iteration_whole_event[OF assms])
    show "fst (event K fd (uhid_rd it) w) = 0"
      using a by (simp add: event_full_read(1)[OF assms])
    show "wlog (snd (event K fd (uhid_rd it) w)) = wlog w"
      using a by (simp add: event_full_read(2)[OF assms])
  }
  show "stderr (snd (event K fd (RdData bs) w)) = stderr w @ [From_uhid_dev UHID_START]"
    if "sizeof_event K \<le> length bs \<and> dec K (take 4 bs) = unat (tag K UHID_START)"
    using that by (simp add: event_full[OF assms] event_msg_start)
  show "stderr (snd (event K fd (RdData bs) w)) = stderr w @ [From_uhid_dev UHID_STOP]"
    if "sizeof_event K \<le> length bs \<and> dec K (take 4 bs) = unat (tag K UHID_STOP)
          \<and> tag K UHID_STOP \<noteq> tag K UHID_START"
    using that by (simp add: event_full[OF assms] event_msg_stop)
  show "wlog w1 = wlog w @ [(fd, create_event K ''test-uhid-device'' (rdesc_addr E) [])]"
    if "prologue K E w = Inr (fd, w1)"
    using that by (rule wlog_prologue[OF assms])
  show "wlog (snd (main K E w)) = wlog w2 @ [(fd, destroy_event K [])]"
    if "prologue K E w = Inr (fd, w1) \<and> main_loop K fd (polls E) mouse0 w1 = (Some r, st', w2)"
    using that by (simp add: main_def wlog_destroy[OF assms] fprintf_def)
qed

text \<open>A Start event after the device is created: the variables of the program are after
  it what they were before, so nothing computed from them is \<open>Created\<close> before and
  \<open>Active\<close> after.\<close>

theorem start_changes_nothing_counterexample:
  "fst (snd (iteration linux_hdr 3 (kernel_event (2 # replicate 4107 0)) mouse0 quiet)) = mouse0
 \<and> \<not> (\<exists>track :: mouse \<Rightarrow> spec_lifecycle.
        track mouse0 = Created
      \<and> track (fst (snd (iteration linux_hdr 3 (kernel_event (2 # replicate 4107 0)) mouse0 quiet)))
          = Active)"
proof -
  have "fst (snd (iteration linux_hdr 3 (kernel_event (2 # replicate 4107 0)) mouse0 quiet)) = mouse0"
    by (simp add: iteration_uhid_turn[OF uhid_turn_kernel_event])
  then show ?thesis
    by simp
qed


lemma funpow_mult_zero: "((*) (k::nat) ^^ n) 0 = 0"
  by (induction n) simp_all

lemma full_read_kernel_event:
  "4108 \<le> length bs \<Longrightarrow> full_read linux_hdr (uhid_rd (kernel_event bs))"
  by (simp add: full_read_def kernel_event_def sizeof_linux)

theorem lifecycle_is_not_tracked_witness:
  "main_loop linux_hdr 3 [kernel_event (2 # replicate 4107 0)] mouse0 quiet
     = (None, mouse0, snd (event linux_hdr 3 (RdData (2 # replicate 4107 0)) quiet))
 \<and> stderr (snd (event linux_hdr 3 (RdData (2 # replicate 4107 0)) quiet)) = [From_uhid_dev UHID_START]
 \<and> stderr (snd (event linux_hdr 3 (RdData (3 # replicate 4107 0)) quiet)) = [From_uhid_dev UHID_STOP]
 \<and> wlog (snd (main linux_hdr
       (run_of [kernel_event (2 # replicate 4107 0), kernel_event (3 # replicate 4107 0),
                key_press CHR ''q'']) quiet))
     = [(3, create_event linux_hdr ''test-uhid-device'' 0 []), (3, destroy_event linux_hdr [])]"
proof -
  let ?start = "2 # replicate 4107 (0::byte)" and ?stop = "3 # replicate 4107 (0::byte)"
  let ?E = "run_of [kernel_event ?start, kernel_event ?stop, key_press CHR ''q'']"
  note T = lifecycle_is_not_tracked[OF wf_linux_hdr]
  have len: "sizeof_event linux_hdr \<le> length ?start" "sizeof_event linux_hdr \<le> length ?stop"
    by (simp_all add: sizeof_linux)
  have tags: "dec linux_hdr (take 4 ?start) = unat (tag linux_hdr UHID_START)"
    "dec linux_hdr (take 4 ?stop) = unat (tag linux_hdr UHID_STOP)"
    "tag linux_hdr UHID_STOP \<noteq> tag linux_hdr UHID_START"
    by (simp_all add: dec_def le_val_def linux_hdr_def funpow_mult_zero)
  have turn: "uhid_turn linux_hdr (kernel_event bs) \<and> full_read linux_hdr (uhid_rd (kernel_event bs))"
    if "4108 \<le> length bs" for bs
    using that by (simp add: uhid_turn_kernel_event full_read_kernel_event)
  have rd: "uhid_rd (kernel_event bs) = RdData bs" for bs
    by (simp add: kernel_event_def)
  have q: "stderr quiet = []" "wlog quiet = []"
    by (simp_all add: quiet_def)
  have 1: "main_loop linux_hdr 3 [kernel_event ?start] mouse0 quiet
     = (None, mouse0, snd (event linux_hdr 3 (RdData ?start) quiet))"
    using T[where it = "kernel_event ?start" and its = "[]" and fd = 3 and st = mouse0 and w = quiet]
      turn[of ?start]
    by (simp add: rd)
  have 2: "stderr (snd (event linux_hdr 3 (RdData ?start) quiet)) = [From_uhid_dev UHID_START]"
    using T[where bs = ?start and fd = 3 and w = quiet] len(1) tags(1) by (simp add: q)
  have 3: "stderr (snd (event linux_hdr 3 (RdData ?stop) quiet)) = [From_uhid_dev UHID_STOP]"
    using T[where bs = ?stop and fd = 3 and w = quiet] len(2) tags(2,3) by (simp add: q)
  obtain w1 where p: "prologue linux_hdr ?E quiet = Inr (3, w1)"
    using prologue_run_of[of quiet] by (simp add: quiet_def)
  have c: "wlog w1 = [(3, create_event linux_hdr ''test-uhid-device'' 0 [])]"
    using T[where E = ?E and w = quiet and fd = 3 and ?w1.0 = w1] p by (simp add: q run_of_def)
  define w2 where "w2 = snd (event linux_hdr 3 (RdData ?start) w1)"
  define w3 where "w3 = snd (event linux_hdr 3 (RdData ?stop) w2)"
  have s1: "main_loop linux_hdr 3 (polls ?E) mouse0 w1
              = main_loop linux_hdr 3 [kernel_event ?stop, key_press CHR ''q''] mouse0 w2"
           "wlog w2 = wlog w1"
    using T[where it = "kernel_event ?start" and its = "[kernel_event ?stop, key_press CHR ''q'']"
              and fd = 3 and st = mouse0 and w = w1] turn[of ?start]
    by (simp_all add: rd w2_def run_of_def)
  have s2: "main_loop linux_hdr 3 [kernel_event ?stop, key_press CHR ''q''] mouse0 w2
              = main_loop linux_hdr 3 [key_press CHR ''q''] mouse0 w3"
           "wlog w3 = wlog w2"
    using T[where it = "kernel_event ?stop" and its = "[key_press CHR ''q'']"
              and fd = 3 and st = mouse0 and w = w2] turn[of ?stop]
    by (simp_all add: rd w3_def)
  have s3: "main_loop linux_hdr 3 [key_press CHR ''q''] mouse0 w3 = (Some (- 125), mouse0, w3)"
    by (simp add: turn_q[OF wf_linux_hdr key_turn_key_press] linux_consts)
  have 4: "wlog (snd (main linux_hdr ?E quiet))
             = [(3, create_event linux_hdr ''test-uhid-device'' 0 []), (3, destroy_event linux_hdr [])]"
    using T[where E = ?E and w = quiet and fd = 3 and ?w1.0 = w1 and r = "- 125" and st' = mouse0
              and ?w2.0 = w3] p s1 s2 s3 c
    by simp
  show ?thesis
    using 1 2 3 4 by blast
qed

subsection \<open>Several bytes in one read\<close>

text \<open>
  The loop of \<^verbatim>\<open>keyboard\<close> keeps its bound in \<^verbatim>\<open>ret\<close>, the variable that receives the
  result of \<^verbatim>\<open>send_event\<close>. After a report is written successfully \<^verbatim>\<open>ret\<close> is 0, and
  the loop ends: the bytes that the same \<^verbatim>\<open>read\<close> delivered after that command are not
  looked at.
\<close>

lemma key_cmd_sends_ok:
  assumes "writes_ok K w" "c \<in> set ''123adwsrf''"
  shows "\<exists>st' w'. key_cmd K fd c r st w = (Next 0, st', w')"
proof -
  have "c = CHR ''1'' \<or> c = CHR ''2'' \<or> c = CHR ''3'' \<or> c = CHR ''a'' \<or> c = CHR ''d''
      \<or> c = CHR ''w'' \<or> c = CHR ''s'' \<or> c = CHR ''r'' \<or> c = CHR ''f''"
    using assms(2) by simp
  then show ?thesis
    apply (elim disjE)
    by (simp_all add: key_cmd_def Let_def sent_def send_event_ok[OF assms(1)])
qed

lemma key_loop_stops_after_report:
  assumes "writes_ok K w" "c \<in> set ''123adwsrf''" "0 \<le> i" "i < r"
  shows "key_loop K fd (c # rest) i r st w = key_loop K fd [c] i r st w"
proof -
  obtain st' w' where k: "key_cmd K fd c r st w = (Next 0, st', w')"
    using key_cmd_sends_ok[OF assms(1,2)] by blast
  show ?thesis
    using assms(3,4) by (cases rest) (simp_all add: k)
qed

lemma one_read_1a1q:
  assumes "writes_ok K w"
  shows "keyboard K fd (RdData ''1a1q'') st w = keyboard K fd (RdData ''1'') st w"
  using key_loop_stops_after_report[OF assms, of "CHR ''1''" 0 4 fd "''a1q''" st]
        key_loop_stops_after_report[OF assms, of "CHR ''1''" 0 1 fd "[]" st]
  by (simp add: keyboard_def read_ret_def read_data_def Let_def key_cmd_def sent_def
        send_event_ok[OF assms])

end
